theory Spec2Isabelle
  imports Complex_Main
begin

section \<open>JavaScript numbers\<close>

text \<open>
  The components compute with JavaScript numbers. A number is modelled as an exact real
  or one of the three special values of IEEE arithmetic, so that a division by zero is a
  branch of the model (\<open>x / 0\<close> is an infinity, \<open>0 / 0\<close> is NaN) instead of HOL's
  \<open>x / 0 = 0\<close>. Finite arithmetic is exact: the rounding error of doubles, overflow
  and the sign of zero are outside the model.
\<close>

datatype number = Fin real | PInf | NInf | NaN

fun js_neg :: "number \<Rightarrow> number" where
  "js_neg (Fin a) = Fin (- a)"
| "js_neg PInf = NInf"
| "js_neg NInf = PInf"
| "js_neg NaN = NaN"

fun js_add :: "number \<Rightarrow> number \<Rightarrow> number" where
  "js_add NaN _ = NaN"
| "js_add _ NaN = NaN"
| "js_add (Fin a) (Fin b) = Fin (a + b)"
| "js_add PInf NInf = NaN"
| "js_add NInf PInf = NaN"
| "js_add PInf _ = PInf"
| "js_add _ PInf = PInf"
| "js_add NInf _ = NInf"
| "js_add _ NInf = NInf"

definition js_sub :: "number \<Rightarrow> number \<Rightarrow> number" where
  "js_sub a b = js_add a (js_neg b)"

text \<open>The sign of a number that is not NaN: \<open>-1\<close>, \<open>0\<close> or \<open>1\<close>.\<close>

fun js_sign :: "number \<Rightarrow> int" where
  "js_sign (Fin a) = (if a < 0 then - 1 else if a = 0 then 0 else 1)"
| "js_sign PInf = 1"
| "js_sign NInf = - 1"
| "js_sign NaN = 0"

definition inf_of_sign :: "int \<Rightarrow> number" where
  "inf_of_sign s = (if s = 0 then NaN else if 0 < s then PInf else NInf)"

fun js_mul :: "number \<Rightarrow> number \<Rightarrow> number" where
  "js_mul NaN _ = NaN"
| "js_mul _ NaN = NaN"
| "js_mul (Fin a) (Fin b) = Fin (a * b)"
| "js_mul a b = inf_of_sign (js_sign a * js_sign b)"

text \<open>
  Division: a finite non-zero number over zero is an infinity of its sign, zero over zero
  and infinity over infinity are NaN, a finite number over an infinity is zero. The zero
  divisor is taken as \<open>+0\<close>, which is what a measured width is.
\<close>

fun js_div :: "number \<Rightarrow> number \<Rightarrow> number" where
  "js_div NaN _ = NaN"
| "js_div _ NaN = NaN"
| "js_div (Fin a) (Fin b) = (if b = 0 then inf_of_sign (js_sign (Fin a)) else Fin (a / b))"
| "js_div (Fin a) _ = Fin 0"
| "js_div a (Fin b) = inf_of_sign (js_sign a * (if b < 0 then - 1 else 1))"
| "js_div _ _ = NaN"

text \<open>\<open>Math.max\<close> and \<open>Math.min\<close> return NaN as soon as one argument is NaN.\<close>

fun js_le :: "number \<Rightarrow> number \<Rightarrow> bool" where
  "js_le NaN _ = False"
| "js_le _ NaN = False"
| "js_le NInf _ = True"
| "js_le _ PInf = True"
| "js_le (Fin a) (Fin b) = (a \<le> b)"
| "js_le _ _ = False"

fun Math_max :: "number \<Rightarrow> number \<Rightarrow> number" where
  "Math_max NaN _ = NaN"
| "Math_max _ NaN = NaN"
| "Math_max a b = (if js_le a b then b else a)"

fun Math_min :: "number \<Rightarrow> number \<Rightarrow> number" where
  "Math_min NaN _ = NaN"
| "Math_min _ NaN = NaN"
| "Math_min a b = (if js_le a b then a else b)"

fun Math_abs :: "number \<Rightarrow> number" where
  "Math_abs (Fin a) = Fin \<bar>a\<bar>"
| "Math_abs PInf = PInf"
| "Math_abs NInf = PInf"
| "Math_abs NaN = NaN"

text \<open>\<open>Math.round\<close> rounds to the nearest integer, a half upwards.\<close>

fun Math_round :: "number \<Rightarrow> number" where
  "Math_round (Fin a) = Fin (of_int \<lfloor>a + 1 / 2\<rfloor>)"
| "Math_round v = v"

text \<open>\<open>Math.pow(10, points)\<close> for a non-negative integer exponent.\<close>

definition Math_pow10 :: "nat \<Rightarrow> number" where
  "Math_pow10 points = Fin (10 ^ points)"

definition Number_EPSILON :: number where
  "Number_EPSILON = Fin (1 / 2 ^ 52)"

text \<open>The comparison \<open>a > b\<close> is false when an operand is NaN.\<close>

definition js_gt :: "number \<Rightarrow> number \<Rightarrow> bool" where
  "js_gt a b = (js_le b a \<and> \<not> js_le a b)"

text \<open>\<open>a === 0\<close> on numbers.\<close>

definition is_zero :: "number \<Rightarrow> bool" where
  "is_zero a = (a = Fin 0)"

text \<open>
  \<open>m?.getBoundingClientRect().width || 0\<close>: the measured width of an element that may
  be \<open>undefined\<close>; \<open>undefined\<close>, \<open>0\<close> and NaN are falsy and give \<open>0\<close>.
\<close>

fun width_or_0 :: "number option \<Rightarrow> number" where
  "width_or_0 None = Fin 0"
| "width_or_0 (Some NaN) = Fin 0"
| "width_or_0 (Some w) = w"

section \<open>The slider (Slider.svelte)\<close>

definition clamp :: "number \<Rightarrow> number \<Rightarrow> number \<Rightarrow> number" where
  "clamp v lo hi = Math_min (Math_max v lo) hi"

definition round_pts :: "number \<Rightarrow> nat \<Rightarrow> number" where
  "round_pts n points =
     (let md = Math_pow10 points
      in js_div (Math_round (js_mul (js_add n Number_EPSILON) md)) md)"

record image_size =
  top_px :: number
  left_px :: number
  width_px :: number
  height_px :: number

text \<open>
  What the component dispatches: a \<open>click\<close> event with its payload. The bound
  property \<open>position\<close> is not dispatched but assigned; the parent sees the value
  that the state holds.
\<close>

datatype 'e emission = Click 'e

text \<open>
  The state of a slider: its properties, its internal variables, the widths the two
  bound elements \<open>el\<close> and \<open>parent_el\<close> report when measured (\<open>None\<close> while an
  element is \<open>undefined\<close>), and the events dispatched so far, oldest first.
\<close>

record 'e slider =
  position :: number
  disabled :: bool
  img :: image_size
  el :: "number option"
  parent_el :: "number option"
  px :: number
  active :: bool
  container_width :: number
  drag_start_x :: number
  was_dragged :: bool
  emitted :: "'e emission list"

record 'e drag_event =
  ev_x :: number
  sourceEvent :: 'e

definition set_position :: "number \<Rightarrow> 'e slider \<Rightarrow> 'e slider" where
  "set_position width s =
     (let s1 = s\<lparr>container_width := width_or_0 (parent_el s)\<rparr>;
          s2 = (if is_zero width
                then s1\<lparr>img := (img s1)\<lparr>width_px := width_or_0 (el s1)\<rparr>\<rparr>
                else s1)
      in s2\<lparr>px := clamp (js_add (js_mul (width_px (img s2)) (position s2)) (left_px (img s2)))
                     (Fin 0) (container_width s2)\<rparr>)"

definition update_position :: "number \<Rightarrow> 'e slider \<Rightarrow> 'e slider" where
  "update_position x s =
     (let s1 = s\<lparr>px := clamp x (Fin 0) (container_width s)\<rparr>;
          p = round_pts (js_div (js_sub x (left_px (img s1))) (width_px (img s1))) 5
      in s1\<lparr>position := p\<rparr>)"

definition drag_start :: "'e drag_event \<Rightarrow> 'e slider \<Rightarrow> 'e slider" where
  "drag_start event s =
     (if disabled s then s
      else (update_position (ev_x event) (s\<lparr>active := True\<rparr>))
             \<lparr>drag_start_x := ev_x event, was_dragged := False\<rparr>)"

definition drag_move :: "'e drag_event \<Rightarrow> 'e slider \<Rightarrow> 'e slider" where
  "drag_move event s =
     (if disabled s then s
      else (let s1 = update_position (ev_x event) s
            in if js_gt (Math_abs (js_sub (ev_x event) (drag_start_x s1))) (Fin 3)
               then s1\<lparr>was_dragged := True\<rparr> else s1))"

definition drag_end :: "'e drag_event \<Rightarrow> 'e slider \<Rightarrow> 'e slider" where
  "drag_end event s =
     (if disabled s then s
      else (let s1 = s\<lparr>active := False\<rparr>
            in if \<not> was_dragged s1
               then s1\<lparr>emitted := emitted s1 @ [Click (sourceEvent event)]\<rparr> else s1))"

definition update_position_from_pc :: "number \<Rightarrow> 'e slider \<Rightarrow> 'e slider" where
  "update_position_from_pc pc s =
     s\<lparr>px := clamp (js_add (js_mul (width_px (img s)) pc) (left_px (img s)))
                (Fin 0) (container_width s)\<rparr>"

text \<open>
  The reactive statements of the component: \<open>set_position(image_size.width)\<close> and
  \<open>update_position_from_pc(position)\<close>, which Svelte runs again after a handler has
  changed what they read.
\<close>

definition reactive_slider :: "'e slider \<Rightarrow> 'e slider" where
  "reactive_slider s = update_position_from_pc (position s) (set_position (width_px (img s)) s)"

text \<open>
  The component as declared: \<open>position = 0.5\<close>, not disabled, a zero
  \<open>image_size\<close>, no element bound yet, \<open>drag_start_x\<close> still \<open>undefined\<close>
  (NaN in arithmetic).
\<close>

definition slider_init :: "'e slider" where
  "slider_init =
     \<lparr>position = Fin (1 / 2), disabled = False,
      img = \<lparr>top_px = Fin 0, left_px = Fin 0, width_px = Fin 0, height_px = Fin 0\<rparr>,
      el = None, parent_el = None, px = Fin 0, active = False, container_width = Fin 0,
      drag_start_x = NaN, was_dragged = False, emitted = []\<rparr>"

section \<open>The two videos (VideoSliderPreview.svelte, Player.svelte)\<close>

text \<open>
  A video element, as far as the components use it: the attributes they read, the calls
  they make on it (oldest first), and whether the runtime accepts \<open>play()\<close>. A call of
  \<open>play()\<close> that the runtime accepts clears \<open>paused\<close> at once; one that it rejects
  changes nothing, and its rejected promise is what \<open>.catch(() => {})\<close> swallows.
  \<open>pause()\<close> sets \<open>paused\<close>.
\<close>

datatype call = Play | Pause

record media =
  currentTime :: real
  paused :: bool
  ended :: bool
  readyState :: nat
  play_allowed :: bool
  calls :: "call list"

definition play :: "media \<Rightarrow> media" where
  "play v = v\<lparr>paused := (if play_allowed v then False else paused v), calls := calls v @ [Play]\<rparr>"

definition pause :: "media \<Rightarrow> media" where
  "pause v = v\<lparr>paused := True, calls := calls v @ [Pause]\<rparr>"

record preview =
  video1_el :: "media option"
  video2_el :: "media option"
  video_is_ready :: bool
  initial_autoplay_done :: bool
  autoplay :: bool

definition handle_video_ready :: "preview \<Rightarrow> preview" where
  "handle_video_ready s = s\<lparr>video_is_ready := True\<rparr>"

definition toggle_playback :: "preview \<Rightarrow> preview" where
  "toggle_playback s =
     (case (video1_el s, video2_el s) of
        (Some v1, Some v2) \<Rightarrow>
          (let is_paused = paused v1
           in if is_paused
              then s\<lparr>video1_el := Some (play v1), video2_el := Some (play v2)\<rparr>
              else s\<lparr>video1_el := Some (pause v1), video2_el := Some (pause v2)\<rparr>)
      | _ \<Rightarrow> s)"

text \<open>The reactive block, in its two parts: the initial autoplay, then the synchronisation.\<close>

definition autoplay_block :: "preview \<Rightarrow> preview" where
  "autoplay_block s =
     (case video1_el s of
        Some v1 \<Rightarrow>
          (if video_is_ready s \<and> autoplay s \<and> \<not> initial_autoplay_done s
           then s\<lparr>video1_el := Some (play v1), initial_autoplay_done := True\<rparr>
           else s)
      | None \<Rightarrow> s)"

definition sync_block :: "preview \<Rightarrow> preview" where
  "sync_block s =
     (case (video1_el s, video2_el s) of
        (Some v1, Some v2) \<Rightarrow>
          (let v2a = (if \<bar>currentTime v1 - currentTime v2\<bar> > 1 / 10
                      then v2\<lparr>currentTime := currentTime v1\<rparr> else v2);
               v2b = (if paused v1 \<noteq> paused v2a
                      then (if paused v1 then pause v2a else play v2a)
                      else v2a)
           in s\<lparr>video2_el := Some v2b\<rparr>)
      | _ \<Rightarrow> s)"

definition reactive_block :: "preview \<Rightarrow> preview" where
  "reactive_block s = sync_block (autoplay_block s)"

text \<open>
  What can happen to a mounted preview: the primary video reports \<open>loadeddata\<close>, the
  runtime changes the time or the paused state of a video, or the component is simply
  rendered again. The reactive block runs after each of them.
\<close>

datatype notification =
  PrimaryReady
  | Rerender
  | PrimaryTime real
  | PrimaryPaused bool
  | SecondaryTime real
  | SecondaryPaused bool

fun notify :: "notification \<Rightarrow> preview \<Rightarrow> preview" where
  "notify PrimaryReady s = reactive_block (handle_video_ready s)"
| "notify Rerender s = reactive_block s"
| "notify (PrimaryTime t) s =
     reactive_block (s\<lparr>video1_el := map_option (\<lambda>v. v\<lparr>currentTime := t\<rparr>) (video1_el s)\<rparr>)"
| "notify (PrimaryPaused b) s =
     reactive_block (s\<lparr>video1_el := map_option (\<lambda>v. v\<lparr>paused := b\<rparr>) (video1_el s)\<rparr>)"
| "notify (SecondaryTime t) s =
     reactive_block (s\<lparr>video2_el := map_option (\<lambda>v. v\<lparr>currentTime := t\<rparr>) (video2_el s)\<rparr>)"
| "notify (SecondaryPaused b) s =
     reactive_block (s\<lparr>video2_el := map_option (\<lambda>v. v\<lparr>paused := b\<rparr>) (video2_el s)\<rparr>)"

definition run :: "notification list \<Rightarrow> preview \<Rightarrow> preview" where
  "run ns s = fold notify ns s"

text \<open>How often \<open>play()\<close> has been called on the primary video.\<close>

definition primary_plays :: "preview \<Rightarrow> nat" where
  "primary_plays s = (case video1_el s of Some v \<Rightarrow> count_list (calls v) Play | None \<Rightarrow> 0)"

text \<open>
  The player's own toggle (Player.svelte): \<open>isPlaying\<close> also asks for a positive time,
  a video that has not ended and buffered data beyond \<open>HAVE_CURRENT_DATA\<close>.
\<close>

definition HAVE_CURRENT_DATA :: nat where
  "HAVE_CURRENT_DATA = 2"

definition isPlaying :: "media \<Rightarrow> bool" where
  "isPlaying video =
     (currentTime video > 0 \<and> \<not> paused video \<and> \<not> ended video
      \<and> readyState video > HAVE_CURRENT_DATA)"

definition play_pause :: "bool \<Rightarrow> media \<Rightarrow> media" where
  "play_pause fullscreen_is_video video =
     (if \<not> fullscreen_is_video
      then (if \<not> isPlaying video then play video else pause video)
      else video)"

section \<open>The root component (Index.svelte)\<close>

definition normalised_slider_position :: "number \<Rightarrow> number" where
  "normalised_slider_position pos = js_div (Math_max (Fin 0) (Math_min (Fin 100) pos)) (Fin 100)"

section \<open>Example states\<close>

text \<open>
  A slider that has been laid out: content area \<open>{top: 0, left: 100, width: 400,
  height: 200}\<close> in a container 600 pixels wide, the handle in the middle.
\<close>

definition slider_laid_out :: "'e slider" where
  "slider_laid_out =
     \<lparr>position = Fin (1 / 2), disabled = False,
      img = \<lparr>top_px = Fin 0, left_px = Fin 100, width_px = Fin 400, height_px = Fin 200\<rparr>,
      el = Some (Fin 400), parent_el = Some (Fin 600), px = Fin 300, active = False,
      container_width = Fin 600, drag_start_x = NaN, was_dragged = False, emitted = []\<rparr>"

definition pointer :: "real \<Rightarrow> 'e \<Rightarrow> 'e drag_event" where
  "pointer x e = \<lparr>ev_x = Fin x, sourceEvent = e\<rparr>"

text \<open>A video at time \<open>t\<close>, with enough data buffered and nothing called on it yet.\<close>

definition video_at :: "real \<Rightarrow> bool \<Rightarrow> media" where
  "video_at t p = \<lparr>currentTime = t, paused = p, ended = False, readyState = 4,
                    play_allowed = True, calls = []\<rparr>"

definition preview_of :: "media \<Rightarrow> media \<Rightarrow> preview" where
  "preview_of v1 v2 = \<lparr>video1_el = Some v1, video2_el = Some v2, video_is_ready = False,
                         initial_autoplay_done = False, autoplay = False\<rparr>"

text \<open>
  A video that is not paused and has not ended, but has no data beyond the current frame;
  a video on which the runtime rejects \<open>play()\<close>; a preview with autoplay configured.
\<close>

definition video_stalled :: media where
  "video_stalled = \<lparr>currentTime = 5, paused = False, ended = False,
                     readyState = HAVE_CURRENT_DATA, play_allowed = True, calls = []\<rparr>"

definition video_blocked :: media where
  "video_blocked = \<lparr>currentTime = 0, paused = True, ended = False, readyState = 4,
                     play_allowed = False, calls = []\<rparr>"

definition preview_autoplay :: preview where
  "preview_autoplay = (preview_of (video_at 0 True) (video_at 0 True))\<lparr>autoplay := True\<rparr>"

section \<open>Rounding to five decimals\<close>

lemma round_pts_Fin:
  "round_pts (Fin a) 5 = Fin (of_int \<lfloor>(a + 1 / 2 ^ 52) * 100000 + 1 / 2\<rfloor> / 100000)"
  by (simp add: round_pts_def Math_pow10_def Number_EPSILON_def)

lemma floor_half_close:
  fixes a e :: real
  assumes "0 \<le> e"
  shows "\<bar>of_int \<lfloor>(a + e) * 100000 + 1 / 2\<rfloor> / 100000 - a\<bar> \<le> 1 / 200000 + e"
proof -
  define y where "y = (a + e) * 100000 + 1 / 2"
  define q where "q = (of_int \<lfloor>y\<rfloor> :: real) / 100000"
  have "of_int \<lfloor>y\<rfloor> \<le> y" "y < of_int \<lfloor>y\<rfloor> + 1"
    by linarith+
  then have "q * 100000 \<le> y" "y < q * 100000 + 1"
    by (simp_all add: q_def)
  then have "q - a \<le> 1 / 200000 + e" "a - q \<le> 1 / 200000 + e"
    using assms by (simp_all add: y_def)
  then show ?thesis
    unfolding q_def y_def by (simp add: abs_le_iff)
qed

lemma round5_close:
  fixes a :: real
  shows "\<bar>of_int \<lfloor>(a + 1 / 2 ^ 52) * 100000 + 1 / 2\<rfloor> / 100000 - a\<bar> \<le> 1 / 200000 + 1 / 2 ^ 52"
  by (rule floor_half_close) simp

text \<open>A number with at most five decimals is its own rounding.\<close>

lemma round5_exact:
  assumes "a * 100000 = of_int k"
  shows "round_pts (Fin a) 5 = Fin a"
proof -
  have e: "(0::real) \<le> 100000 / 2 ^ 52 + 1 / 2" "(100000::real) / 2 ^ 52 + 1 / 2 < 1"
    by simp_all
  have "(a + 1 / 2 ^ 52) * 100000 + 1 / 2 = of_int k + (100000 / 2 ^ 52 + 1 / 2)"
    using assms by (simp add: algebra_simps)
  then have "\<lfloor>(a + 1 / 2 ^ 52) * 100000 + 1 / 2\<rfloor> = k"
    using e by (simp add: floor_unique)
  then show ?thesis
    using assms by (simp add: round_pts_Fin)
qed

lemma update_position_fin:
  assumes "left_px (img s) = Fin l" and "width_px (img s) = Fin w" and "w \<noteq> 0"
  shows "position (update_position (Fin x) s)
           = Fin (of_int \<lfloor>((x - l) / w + 1 / 2 ^ 52) * 100000 + 1 / 2\<rfloor> / 100000)"
  using assms by (simp add: update_position_def Let_def js_sub_def round_pts_Fin)

section \<open>The position written by a pointer update\<close>

text \<open>
  C1 (the position after \<open>update_position\<close> lies in \<open>[0, 1]\<close> for every pointer x).
  \<open>update_position\<close> clamps the pixel offset \<open>px\<close> but writes \<open>position\<close> as the
  rounded quotient, unclamped: on the laid-out slider (left 100, width 400, container
  600) a pointer at x = 700, to the right of the content area, gives the position 1.5.
\<close>

theorem update_position_escapes:
  "position (update_position (Fin 700) (slider_laid_out :: string slider)) = Fin (3 / 2)
   \<and> px (update_position (Fin 700) (slider_laid_out :: string slider)) = Fin 600"
proof -
  have "round_pts (Fin (3 / 2)) 5 = Fin (3 / 2)"
    by (rule round5_exact [of _ 150000]) simp
  then show ?thesis
    by (simp add: update_position_def Let_def js_sub_def slider_laid_out_def clamp_def)
qed

text \<open>
  C7 (with a width of 0 the conversion returns a safe default, not Infinity or NaN, and
  the state corrects itself at the next geometry observation). On the slider as declared
  (width 0, left 0) \<open>update_position\<close> divides by zero: a pointer at x = 50 gives the
  position \<open>Infinity\<close>, a pointer at x = 0 gives NaN. A following \<open>set_position(0)\<close>
  that measures a content box of width 400 leaves the position at \<open>Infinity\<close>.
\<close>

theorem update_position_zero_width:
  "position (update_position (Fin 50) (slider_init :: string slider)) = PInf
   \<and> position (update_position (Fin 0) (slider_init :: string slider)) = NaN
   \<and> position (set_position (Fin 0)
        ((update_position (Fin 50) (slider_init :: string slider))
           \<lparr>el := Some (Fin 400), parent_el := Some (Fin 600)\<rparr>)) = PInf"
  by (simp add: update_position_def set_position_def Let_def js_sub_def slider_init_def
      round_pts_def Math_pow10_def Number_EPSILON_def inf_of_sign_def)

section \<open>Pixel offset and position as inverses\<close>

lemma clamp_fin:
  "clamp (Fin v) (Fin lo) (Fin hi) = Fin (min (max v lo) hi)"
  by (auto simp: clamp_def)

lemma update_position_from_pc_frame [simp]:
  "img (update_position_from_pc pc s) = img s"
  "position (update_position_from_pc pc s) = position s"
  by (simp_all add: update_position_from_pc_def)

text \<open>The geometry observations derive the pixel offset and never write the position.\<close>

lemma set_position_keeps_position:
  "position (set_position width s) = position s"
  "position (reactive_slider s) = position s"
  by (simp_all add: set_position_def reactive_slider_def Let_def)

lemma slider_laid_out_geometry:
  "left_px (img slider_laid_out) = Fin 100" "width_px (img slider_laid_out) = Fin 400"
  "container_width slider_laid_out = Fin 600"
  by (simp_all add: slider_laid_out_def)

text \<open>Inside the content area the position written by a pointer update is in \<open>[0, 1]\<close>.\<close>

lemma update_position_inside:
  assumes "left_px (img s) = Fin l" and "width_px (img s) = Fin w" and "0 < w"
    and "l \<le> x" and "x \<le> l + w"
  shows "\<exists>q. position (update_position (Fin x) s) = Fin q \<and> 0 \<le> q \<and> q \<le> 1"
proof -
  define t where "t = (x - l) / w"
  have t: "0 \<le> t" "t \<le> 1"
    using assms(3-5) by (simp_all add: t_def)
  define y where "y = (t + 1 / 2 ^ 52) * 100000 + 1 / 2"
  have "0 \<le> y"
    using t(1) by (simp add: y_def)
  then have lo: "0 \<le> \<lfloor>y\<rfloor>"
    by simp
  have "y \<le> 100000 + (100000 / 2 ^ 52 + 1 / 2)"
    using t(2) by (simp add: y_def algebra_simps)
  also have "\<dots> < 100000 + 1"
    by simp
  finally have "\<lfloor>y\<rfloor> < 100000 + 1"
    by (simp add: floor_less_iff)
  then have hi: "\<lfloor>y\<rfloor> \<le> 100000"
    by simp
  have "position (update_position (Fin x) s) = Fin (of_int \<lfloor>y\<rfloor> / 100000)"
    using update_position_fin [OF assms(1,2), of x] assms(3) by (simp add: y_def t_def)
  moreover have "0 \<le> (of_int \<lfloor>y\<rfloor> :: real) / 100000" "(of_int \<lfloor>y\<rfloor> :: real) / 100000 \<le> 1"
    using lo hi by simp_all
  ultimately show ?thesis
    by blast
qed

text \<open>
  C9 (round trip). For a content area of positive width that lies within the container
  and a position \<open>p\<close> strictly between 0 and 1, \<open>update_position_from_pc\<close> puts the
  handle at the pixel \<open>width * p + left\<close>, which is within the container, and
  \<open>update_position\<close> at that pixel writes a position within half a unit of the fifth
  decimal, plus the \<open>Number.EPSILON\<close> the rounding adds, of \<open>p\<close>.
\<close>

theorem position_round_trip:
  assumes "left_px (img s) = Fin l" and "width_px (img s) = Fin w"
    and "container_width s = Fin cw"
    and "0 < w" and "0 \<le> l" and "l + w \<le> cw" and "0 < p" and "p < 1"
  shows "\<exists>q. px (update_position_from_pc (Fin p) s) = Fin (w * p + l)
           \<and> 0 \<le> w * p + l \<and> w * p + l \<le> cw
           \<and> position (update_position (Fin (w * p + l)) (update_position_from_pc (Fin p) s)) = Fin q
           \<and> \<bar>q - p\<bar> \<le> 1 / 200000 + 1 / 2 ^ 52"
proof -
  have "w * p \<le> w * 1" and "0 \<le> w * p"
    using assms(4,7,8) by (simp_all add: mult_left_mono)
  then have b: "0 \<le> w * p + l" "w * p + l \<le> cw"
    using assms(5,6) by linarith+
  then have x: "px (update_position_from_pc (Fin p) s) = Fin (w * p + l)"
    using assms(1-3) by (simp add: update_position_from_pc_def clamp_fin)
  have "(w * p + l - l) / w = p"
    using assms(4) by simp
  then have "position (update_position (Fin (w * p + l)) (update_position_from_pc (Fin p) s))
               = Fin (of_int \<lfloor>(p + 1 / 2 ^ 52) * 100000 + 1 / 2\<rfloor> / 100000)"
    using update_position_fin [of "update_position_from_pc (Fin p) s" l w "w * p + l"] assms(1,2,4)
    by simp
  with x b round5_close [of p] show ?thesis
    by blast
qed

theorem position_round_trip_witness:
  "\<exists>q. px (update_position_from_pc (Fin (1 / 3)) (slider_laid_out :: string slider))
          = Fin (400 * (1 / 3) + 100)
      \<and> position (update_position (Fin (400 * (1 / 3) + 100))
                   (update_position_from_pc (Fin (1 / 3)) (slider_laid_out :: string slider))) = Fin q
      \<and> \<bar>q - 1 / 3\<bar> \<le> 1 / 200000 + 1 / 2 ^ 52"
  using position_round_trip [OF slider_laid_out_geometry, of "1 / 3"]
  by simp

section \<open>Drag sessions\<close>

lemma update_position_frame [simp]:
  "disabled (update_position x s) = disabled s"
  "was_dragged (update_position x s) = was_dragged s"
  "drag_start_x (update_position x s) = drag_start_x s"
  "active (update_position x s) = active s"
  "img (update_position x s) = img s"
  "container_width (update_position x s) = container_width s"
  by (simp_all add: update_position_def Let_def)

lemma update_position_writes:
  "position (update_position x s)
     = round_pts (js_div (js_sub x (left_px (img s))) (width_px (img s))) 5"
  "px (update_position x s) = clamp x (Fin 0) (container_width s)"
  "emitted (update_position x s) = emitted s"
  by (simp_all add: update_position_def Let_def)

lemma drag_start_enabled:
  assumes "\<not> disabled s"
  shows "\<not> disabled (drag_start down s)" and "\<not> was_dragged (drag_start down s)"
    and "drag_start_x (drag_start down s) = ev_x down"
    and "emitted (drag_start down s) = emitted s"
    and "img (drag_start down s) = img s"
    and "position (drag_start down s)
           = round_pts (js_div (js_sub (ev_x down) (left_px (img s))) (width_px (img s))) 5"
    and "px (drag_start down s) = clamp (ev_x down) (Fin 0) (container_width s)"
  using assms by (simp_all add: drag_start_def update_position_def Let_def)

lemma drag_move_frame:
  "disabled (drag_move mv s) = disabled s" "drag_start_x (drag_move mv s) = drag_start_x s"
  by (simp_all add: drag_move_def Let_def)

lemma js_gt_fin [simp]: "js_gt (Fin a) (Fin b) = (a > b)"
  by (auto simp: js_gt_def)

lemma drag_move_flag:
  assumes "\<not> disabled s" and "drag_start_x s = Fin a" and "ev_x mv = Fin b"
  shows "was_dragged (drag_move mv s) = (was_dragged s \<or> \<bar>b - a\<bar> > 3)"
  using assms by (simp add: drag_move_def Let_def js_sub_def)

lemma drag_move_writes:
  assumes "\<not> disabled s"
  shows "emitted (drag_move mv s) = emitted s"
    and "position (drag_move mv s)
           = round_pts (js_div (js_sub (ev_x mv) (left_px (img s))) (width_px (img s))) 5"
  using assms by (simp_all add: drag_move_def Let_def update_position_def)

lemma drag_end_position: "position (drag_end up s) = position s"
  by (simp add: drag_end_def Let_def)

text \<open>Two numbers at least 1 apart have different integer parts.\<close>

lemma floor_apart:
  fixes y z :: real
  assumes "1 \<le> \<bar>y - z\<bar>"
  shows "\<lfloor>y\<rfloor> \<noteq> \<lfloor>z\<rfloor>"
proof
  assume e: "\<lfloor>y\<rfloor> = \<lfloor>z\<rfloor>"
  define k :: real where "k = of_int \<lfloor>y\<rfloor>"
  have "k \<le> y" "y < k + 1"
    unfolding k_def by linarith+
  moreover have "k \<le> z" "z < k + 1"
    unfolding k_def e by linarith+
  ultimately show False
    using assms by linarith
qed

text \<open>
  On a content area of finite left and a width of at most a million pixels, two pointers
  10 pixels or more apart are rounded to different positions.
\<close>

lemma round_pts_apart:
  assumes "0 < w" and "w \<le> 1000000" and "10 \<le> \<bar>b - a\<bar>"
  shows "round_pts (js_div (js_sub (Fin a) (Fin l)) (Fin w)) 5
           \<noteq> round_pts (js_div (js_sub (Fin b) (Fin l)) (Fin w)) 5"
proof -
  define ya where "ya = ((a - l) / w + 1 / 2 ^ 52) * 100000 + 1 / 2"
  define yb where "yb = ((b - l) / w + 1 / 2 ^ 52) * 100000 + 1 / 2"
  define c where "c = 100000 / w"
  have c: "1 / 10 \<le> c"
    using assms(1,2) by (simp add: c_def field_simps)
  have "ya - yb = (a - b) * c"
    using assms(1) by (simp add: ya_def yb_def c_def field_simps)
  then have "\<bar>ya - yb\<bar> = \<bar>b - a\<bar> * c"
    using c by (simp add: abs_mult abs_minus_commute)
  moreover have "10 * (1 / 10) \<le> \<bar>b - a\<bar> * c"
    using assms(3) c by (intro mult_mono) simp_all
  ultimately have "1 \<le> \<bar>ya - yb\<bar>"
    by simp
  then have "\<lfloor>ya\<rfloor> \<noteq> \<lfloor>yb\<rfloor>"
    by (rule floor_apart)
  then show ?thesis
    using assms(1) by (simp add: js_sub_def round_pts_Fin ya_def yb_def)
qed

lemma drag_end_emitted:
  assumes "\<not> disabled s"
  shows "emitted (drag_end up s)
           = emitted s @ (if was_dragged s then [] else [Click (sourceEvent up)])"
  using assms by (simp add: drag_end_def Let_def)

lemma slider_laid_out_enabled: "\<not> disabled slider_laid_out"
  by (simp add: slider_laid_out_def)

lemma pointer_sel [simp]: "ev_x (pointer x e) = Fin x" "sourceEvent (pointer x e) = e"
  by (simp_all add: pointer_def)

lemma slider_laid_out_emitted [simp]: "emitted slider_laid_out = []"
  by (simp add: slider_laid_out_def)

text \<open>
  The scenario of a press at x = 300 and a move to x = 340 on the laid-out slider: the
  positions written are 0.5 and 0.6.
\<close>

lemma press_and_move_positions:
  "position (drag_start (pointer 300 ''down'') slider_laid_out) = Fin (1 / 2)"
  "position (drag_move (pointer 340 ''move'') (drag_start (pointer 300 ''down'') slider_laid_out)) = Fin (3 / 5)"
proof -
  have "round_pts (Fin (1 / 2)) 5 = Fin (1 / 2)"
    by (rule round5_exact [of _ 50000]) simp
  then show "position (drag_start (pointer 300 ''down'') slider_laid_out) = Fin (1 / 2)"
    by (simp add: drag_start_def update_position_def Let_def js_sub_def slider_laid_out_def pointer_def)
  have "round_pts (Fin (3 / 5)) 5 = Fin (3 / 5)"
    by (rule round5_exact [of _ 60000]) simp
  then show "position (drag_move (pointer 340 ''move'') (drag_start (pointer 300 ''down'') slider_laid_out)) = Fin (3 / 5)"
    by (simp add: drag_move_def drag_start_def update_position_def Let_def js_sub_def slider_laid_out_def pointer_def)
qed

lemma fold_drag_move_flag:
  assumes "\<not> disabled s" and "drag_start_x s = Fin a"
    and "\<forall>m\<in>set moves. \<exists>b. ev_x m = Fin b"
  shows "was_dragged (fold drag_move moves s)
           = (was_dragged s \<or> (\<exists>m\<in>set moves. \<exists>b. ev_x m = Fin b \<and> \<bar>b - a\<bar> > 3))"
  using assms
proof (induction moves arbitrary: s)
  case Nil
  then show ?case by simp
next
  case (Cons m moves)
  from Cons.prems obtain b where b: "ev_x m = Fin b" by auto
  have 1: "\<not> disabled (drag_move m s)" "drag_start_x (drag_move m s) = Fin a"
    using Cons.prems by (simp_all add: drag_move_frame)
  have "was_dragged (fold drag_move (m # moves) s) = was_dragged (fold drag_move moves (drag_move m s))"
    by simp
  also have "\<dots> = (was_dragged (drag_move m s)
                     \<or> (\<exists>m\<in>set moves. \<exists>b. ev_x m = Fin b \<and> \<bar>b - a\<bar> > 3))"
    using Cons.prems by (intro Cons.IH 1) simp
  also have "was_dragged (drag_move m s) = (was_dragged s \<or> \<bar>b - a\<bar> > 3)"
    using Cons.prems b by (intro drag_move_flag) simp_all
  finally show ?case using b by auto
qed

text \<open>
  C8 (the threshold of 3 pixels). In a drag session on an enabled slider, started at
  \<open>a\<close>, the flag \<open>was_dragged\<close> is set after the moves exactly when one of them was
  more than 3 pixels away from \<open>a\<close>: a move to a distance of exactly 3 does not set it,
  a move to a distance of 4 does.
\<close>

theorem moved_flag_threshold:
  assumes "\<not> disabled s" and "ev_x down = Fin a"
    and "\<forall>m\<in>set moves. \<exists>b. ev_x m = Fin b"
  shows "was_dragged (fold drag_move moves (drag_start down s))
           = (\<exists>m\<in>set moves. \<exists>b. ev_x m = Fin b \<and> \<bar>b - a\<bar> > 3)"
proof -
  have "\<not> disabled (drag_start down s)" "drag_start_x (drag_start down s) = Fin a"
    "\<not> was_dragged (drag_start down s)"
    using drag_start_enabled [OF assms(1), of down] assms(2) by simp_all
  then show ?thesis
    using fold_drag_move_flag [of "drag_start down s" a moves] assms(3) by simp
qed

theorem moved_flag_threshold_witness:
  "\<not> was_dragged (fold drag_move [pointer 303 ''move'']
                     (drag_start (pointer 300 ''down'') slider_laid_out))
   \<and> \<not> was_dragged (fold drag_move [pointer 297 ''move'']
                     (drag_start (pointer 300 ''down'') slider_laid_out))
   \<and> was_dragged (fold drag_move [pointer 304 ''move'']
                     (drag_start (pointer 300 ''down'') slider_laid_out))
   \<and> was_dragged (fold drag_move [pointer 301 ''move'', pointer 296 ''move'', pointer 300 ''move'']
                     (drag_start (pointer 300 ''down'') slider_laid_out))"
  using moved_flag_threshold [OF slider_laid_out_enabled, of "pointer 300 ''down''" 300 "[pointer 303 ''move'']"]
        moved_flag_threshold [OF slider_laid_out_enabled, of "pointer 300 ''down''" 300 "[pointer 297 ''move'']"]
        moved_flag_threshold [OF slider_laid_out_enabled, of "pointer 300 ''down''" 300 "[pointer 304 ''move'']"]
        moved_flag_threshold [OF slider_laid_out_enabled, of "pointer 300 ''down''" 300
           "[pointer 301 ''move'', pointer 296 ''move'', pointer 300 ''move'']"]
  by simp

text \<open>
  C4 (click or drag). On an enabled slider \<open>drag_end\<close> dispatches a click, carrying the
  source event of the pointer-up, exactly when \<open>was_dragged\<close> is false, and it leaves
  the position as it is. A press writes the position \<open>round((x - left) / width, 5)\<close>
  of its own x and the clamped pixel offset: the initial snap. So a press followed by a
  release dispatches one click, and the position is the one of the press. A press, a move
  of more than 3 pixels and a release dispatch no click, and the position is the one
  written from the x of the move. Where the content area has a finite left and a width of
  at most a million pixels, a move of 10 pixels or more writes a position different from
  the one of the press, which is when the parent bound to \<open>position\<close> sees a change.
\<close>

theorem drag_end_click_iff_not_moved:
  assumes "\<not> disabled s"
  shows "emitted (drag_end up s)
           = emitted s @ (if was_dragged s then [] else [Click (sourceEvent up)])
         \<and> position (drag_end up s) = position s
         \<and> position (drag_start down s)
           = round_pts (js_div (js_sub (ev_x down) (left_px (img s))) (width_px (img s))) 5
         \<and> px (drag_start down s) = clamp (ev_x down) (Fin 0) (container_width s)
         \<and> emitted (drag_end up (drag_start down s)) = emitted s @ [Click (sourceEvent up)]
         \<and> position (drag_end up (drag_start down s))
           = round_pts (js_div (js_sub (ev_x down) (left_px (img s))) (width_px (img s))) 5
         \<and> (ev_x down = Fin a \<and> ev_x mv = Fin b \<and> \<bar>b - a\<bar> > 3 \<longrightarrow>
              emitted (drag_end up (drag_move mv (drag_start down s))) = emitted s
              \<and> position (drag_end up (drag_move mv (drag_start down s)))
                = round_pts (js_div (js_sub (ev_x mv) (left_px (img s))) (width_px (img s))) 5)
         \<and> (ev_x down = Fin a \<and> ev_x mv = Fin b \<and> 10 \<le> \<bar>b - a\<bar>
              \<and> left_px (img s) = Fin l \<and> width_px (img s) = Fin w \<and> 0 < w \<and> w \<le> 1000000 \<longrightarrow>
              position (drag_move mv (drag_start down s)) \<noteq> position (drag_start down s))"
proof -
  let ?s1 = "drag_start down s"
  note st = drag_start_enabled [OF assms, of down]
  have e1: "\<not> disabled ?s1"
    by (rule st(1))
  have c1: "emitted (drag_end up s)
              = emitted s @ (if was_dragged s then [] else [Click (sourceEvent up)])"
    using assms by (rule drag_end_emitted)
  have c2: "position (drag_end up s) = position s"
    by (rule drag_end_position)
  have c5: "emitted (drag_end up ?s1) = emitted s @ [Click (sourceEvent up)]"
    using st(2,4) by (simp add: drag_end_emitted [OF e1])
  have c6: "position (drag_end up ?s1)
              = round_pts (js_div (js_sub (ev_x down) (left_px (img s))) (width_px (img s))) 5"
    using st(6) by (simp add: drag_end_position)
  have c7: "emitted (drag_end up (drag_move mv ?s1)) = emitted s
            \<and> position (drag_end up (drag_move mv ?s1))
              = round_pts (js_div (js_sub (ev_x mv) (left_px (img s))) (width_px (img s))) 5"
    if h: "ev_x down = Fin a \<and> ev_x mv = Fin b \<and> \<bar>b - a\<bar> > 3"
  proof -
    have x1: "drag_start_x ?s1 = Fin a"
      using st(3) h by simp
    have "was_dragged (drag_move mv ?s1)"
      using drag_move_flag [OF e1 x1, of mv b] h by simp
    moreover have "\<not> disabled (drag_move mv ?s1)"
      using e1 by (simp add: drag_move_frame)
    ultimately have "emitted (drag_end up (drag_move mv ?s1)) = emitted (drag_move mv ?s1)"
      by (simp add: drag_end_emitted)
    then have "emitted (drag_end up (drag_move mv ?s1)) = emitted s"
      using drag_move_writes(1) [OF e1, of mv] st(4) by simp
    moreover have "position (drag_end up (drag_move mv ?s1))
                     = round_pts (js_div (js_sub (ev_x mv) (left_px (img s))) (width_px (img s))) 5"
      using drag_move_writes(2) [OF e1, of mv] st(5) by (simp add: drag_end_position)
    ultimately show ?thesis
      by simp
  qed
  have c8: "position (drag_move mv ?s1) \<noteq> position ?s1"
    if h: "ev_x down = Fin a \<and> ev_x mv = Fin b \<and> 10 \<le> \<bar>b - a\<bar>
           \<and> left_px (img s) = Fin l \<and> width_px (img s) = Fin w \<and> 0 < w \<and> w \<le> 1000000"
  proof -
    have "position (drag_move mv ?s1)
            = round_pts (js_div (js_sub (Fin b) (Fin l)) (Fin w)) 5"
      using drag_move_writes(2) [OF e1, of mv] st(5) h by simp
    moreover have "position ?s1 = round_pts (js_div (js_sub (Fin a) (Fin l)) (Fin w)) 5"
      using st(6) h by simp
    moreover have "round_pts (js_div (js_sub (Fin a) (Fin l)) (Fin w)) 5
                     \<noteq> round_pts (js_div (js_sub (Fin b) (Fin l)) (Fin w)) 5"
      using h by (intro round_pts_apart) simp_all
    ultimately show ?thesis
      by simp
  qed
  from c1 c2 st(6) st(7) c5 c6 c7 c8 show ?thesis
    by blast
qed

theorem drag_end_click_iff_not_moved_witness:
  "emitted (drag_end (pointer 340 ''up'') (drag_start (pointer 340 ''down'') slider_laid_out))
     = [Click ''up'']
   \<and> position (drag_start (pointer 340 ''down'') slider_laid_out) = Fin (3 / 5)
   \<and> px (drag_start (pointer 340 ''down'') slider_laid_out) = Fin 340
   \<and> position (drag_end (pointer 340 ''up'') (drag_start (pointer 340 ''down'') slider_laid_out))
     = Fin (3 / 5)
   \<and> emitted (drag_end (pointer 350 ''up'')
        (drag_move (pointer 350 ''move'') (drag_start (pointer 340 ''down'') slider_laid_out)))
     = []
   \<and> position (drag_end (pointer 350 ''up'')
        (drag_move (pointer 350 ''move'') (drag_start (pointer 340 ''down'') slider_laid_out)))
     = Fin (5 / 8)
   \<and> position (drag_move (pointer 350 ''move'') (drag_start (pointer 340 ''down'') slider_laid_out))
     \<noteq> position (drag_start (pointer 340 ''down'') slider_laid_out)"
proof -
  have r: "round_pts (Fin (3 / 5)) 5 = Fin (3 / 5)" "round_pts (Fin (5 / 8)) 5 = Fin (5 / 8)"
    by (rule round5_exact [of _ 60000], simp) (rule round5_exact [of _ 62500], simp)
  show ?thesis
    using drag_end_click_iff_not_moved [OF slider_laid_out_enabled,
            of "pointer 340 ''up''" "pointer 340 ''down''" 340 "pointer 350 ''move''" 350 100 400]
          drag_end_click_iff_not_moved [OF slider_laid_out_enabled,
            of "pointer 350 ''up''" "pointer 340 ''down''" 340 "pointer 350 ''move''" 350 100 400]
    by (simp add: slider_laid_out_geometry js_sub_def clamp_def r)
qed

section \<open>Synchronising the secondary video\<close>

lemma preview_of_sel [simp]:
  "video1_el (preview_of v1 v2) = Some v1" "video2_el (preview_of v1 v2) = Some v2"
  by (simp_all add: preview_of_def)

lemma video_at_sel [simp]:
  "currentTime (video_at t p) = t" "paused (video_at t p) = p" "calls (video_at t p) = []"
  by (simp_all add: video_at_def)

text \<open>
  C2 (time correction). With both videos present, the synchronising part of the reactive
  block sets the secondary's time to the primary's when the two differ by more than 0.1,
  leaves it as it is otherwise, and leaves the primary video untouched.
\<close>

theorem sync_block_time:
  assumes "video1_el s = Some v1" and "video2_el s = Some v2"
  shows "\<exists>w. video2_el (sync_block s) = Some w
           \<and> currentTime w = (if \<bar>currentTime v1 - currentTime v2\<bar> > 1 / 10
                               then currentTime v1 else currentTime v2)
           \<and> video1_el (sync_block s) = Some v1"
  using assms by (simp add: sync_block_def Let_def play_def pause_def)

theorem sync_block_time_witness:
  "(\<exists>w. video2_el (sync_block (preview_of (video_at 10 False) (video_at (98 / 10) False))) = Some w
       \<and> currentTime w = 10
       \<and> video1_el (sync_block (preview_of (video_at 10 False) (video_at (98 / 10) False)))
           = Some (video_at 10 False))
   \<and> (\<exists>w. video2_el (sync_block (preview_of (video_at 10 False) (video_at (995 / 100) False))) = Some w
       \<and> currentTime w = 995 / 100
       \<and> video1_el (sync_block (preview_of (video_at 10 False) (video_at (995 / 100) False)))
           = Some (video_at 10 False))"
  using sync_block_time [OF preview_of_sel(1) preview_of_sel(2), of "video_at 10 False" "video_at (98 / 10) False"]
        sync_block_time [OF preview_of_sel(1) preview_of_sel(2), of "video_at 10 False" "video_at (995 / 100) False"]
  by simp

text \<open>
  C3 (pause mirroring). With both videos present, the synchronising part calls
  \<open>pause()\<close> on the secondary when the primary is paused and the secondary is not,
  \<open>play()\<close> when the secondary is paused and the primary is not, and nothing when the
  two agree; it is one call at most, and the primary video is untouched.
\<close>

theorem sync_block_paused:
  assumes "video1_el s = Some v1" and "video2_el s = Some v2"
  shows "\<exists>w. video2_el (sync_block s) = Some w
           \<and> calls w = calls v2 @ (if paused v1 = paused v2 then []
                                    else if paused v1 then [Pause] else [Play])
           \<and> video1_el (sync_block s) = Some v1"
  using assms by (simp add: sync_block_def Let_def play_def pause_def)

theorem sync_block_paused_witness:
  "\<exists>w. video2_el (sync_block (preview_of (video_at 10 True) (video_at 10 False))) = Some w
       \<and> calls w = [Pause]
       \<and> video1_el (sync_block (preview_of (video_at 10 True) (video_at 10 False)))
           = Some (video_at 10 True)"
  using sync_block_paused [OF preview_of_sel(1) preview_of_sel(2), of "video_at 10 True" "video_at 10 False"]
  by simp

text \<open>
  The synchronising part is the whole reactive block whenever the autoplay part does not
  fire.
\<close>

lemma reactive_block_without_autoplay:
  assumes "initial_autoplay_done s \<or> \<not> autoplay s \<or> \<not> video_is_ready s"
  shows "reactive_block s = sync_block s"
  using assms by (auto simp: reactive_block_def autoplay_block_def split: option.splits)

section \<open>Toggling playback\<close>

text \<open>
  C5, as stated (primary counts as not playing while it has too little data buffered, and
  then \<open>play()\<close> is called on both videos), fails: \<open>toggle_playback\<close> reads
  \<open>paused\<close> only. For a primary video that is not paused and not ended, at a
  positive time with no data beyond the current frame, \<open>isPlaying\<close> is false and
  \<open>toggle_playback\<close> calls \<open>pause()\<close> on both videos, where the player's own
  \<open>play_pause\<close> would call \<open>play()\<close>.
\<close>

theorem toggle_playback_stalled_counterexample:
  "\<not> isPlaying video_stalled
   \<and> video1_el (toggle_playback (preview_of video_stalled video_stalled)) = Some (pause video_stalled)
   \<and> video2_el (toggle_playback (preview_of video_stalled video_stalled)) = Some (pause video_stalled)
   \<and> calls (pause video_stalled) = [Pause]
   \<and> calls (play_pause False video_stalled) = [Play]"
  by (simp add: isPlaying_def video_stalled_def toggle_playback_def preview_of_def pause_def
      play_pause_def play_def)

text \<open>
  C5, amended. With both videos present \<open>toggle_playback\<close> calls \<open>play()\<close> on
  both when the primary is paused and \<open>pause()\<close> on both otherwise. Each video
  receives its call whether or not the runtime accepts \<open>play()\<close> on the other one.
\<close>

theorem toggle_playback_calls:
  assumes "video1_el s = Some v1" and "video2_el s = Some v2"
  shows "\<exists>w1 w2. video1_el (toggle_playback s) = Some w1
           \<and> video2_el (toggle_playback s) = Some w2
           \<and> calls w1 = calls v1 @ [if paused v1 then Play else Pause]
           \<and> calls w2 = calls v2 @ [if paused v1 then Play else Pause]"
  using assms by (simp add: toggle_playback_def Let_def play_def pause_def)

theorem toggle_playback_calls_witness:
  "\<exists>w1 w2. video1_el (toggle_playback (preview_of video_blocked (video_at 0 True))) = Some w1
      \<and> video2_el (toggle_playback (preview_of video_blocked (video_at 0 True))) = Some w2
      \<and> calls w1 = [Play] \<and> calls w2 = [Play]"
  using toggle_playback_calls [OF preview_of_sel(1) preview_of_sel(2), of video_blocked "video_at 0 True"]
  by (simp add: video_blocked_def)

section \<open>Autoplay happens once\<close>

lemma sync_block_frame:
  "video1_el (sync_block s) = video1_el s"
  "initial_autoplay_done (sync_block s) = initial_autoplay_done s"
  "autoplay (sync_block s) = autoplay s"
  "video_is_ready (sync_block s) = video_is_ready s"
  by (simp_all add: sync_block_def Let_def split: option.splits)

lemma sync_block_plays: "primary_plays (sync_block s) = primary_plays s"
  by (simp add: primary_plays_def sync_block_frame)

lemma autoplay_block_frame:
  "autoplay (autoplay_block s) = autoplay s"
  "video_is_ready (autoplay_block s) = video_is_ready s"
  "(video1_el (autoplay_block s) = None) = (video1_el s = None)"
  by (simp_all add: autoplay_block_def split: option.splits)

lemma autoplay_block_latch:
  "initial_autoplay_done (autoplay_block s)
     = (initial_autoplay_done s \<or> (video1_el s \<noteq> None \<and> video_is_ready s \<and> autoplay s))"
  by (auto simp: autoplay_block_def split: option.splits)

lemma autoplay_block_plays:
  "primary_plays (autoplay_block s) + (if initial_autoplay_done s then 1 else 0)
     = primary_plays s + (if initial_autoplay_done (autoplay_block s) then 1 else 0)"
  by (auto simp: autoplay_block_def primary_plays_def play_def split: option.splits)

lemma reactive_block_plays:
  "primary_plays (reactive_block s) + (if initial_autoplay_done s then 1 else 0)
     = primary_plays s + (if initial_autoplay_done (reactive_block s) then 1 else 0)"
  using autoplay_block_plays [of s]
  by (simp add: reactive_block_def sync_block_plays sync_block_frame)

lemma reactive_block_frame:
  "autoplay (reactive_block s) = autoplay s"
  "video_is_ready (reactive_block s) = video_is_ready s"
  "(video1_el (reactive_block s) = None) = (video1_el s = None)"
  "initial_autoplay_done (reactive_block s)
     = (initial_autoplay_done s \<or> (video1_el s \<noteq> None \<and> video_is_ready s \<and> autoplay s))"
  by (simp_all add: reactive_block_def sync_block_frame autoplay_block_frame autoplay_block_latch)

lemma notify_plays:
  "primary_plays (notify n s) + (if initial_autoplay_done s then 1 else 0)
     = primary_plays s + (if initial_autoplay_done (notify n s) then 1 else 0)"
proof (cases n)
  case PrimaryReady
  then show ?thesis
    using reactive_block_plays [of "handle_video_ready s"]
    by (simp add: handle_video_ready_def primary_plays_def)
next
  case Rerender
  then show ?thesis using reactive_block_plays [of s] by simp
next
  case (PrimaryTime t)
  then show ?thesis
    using reactive_block_plays [of "s\<lparr>video1_el := map_option (\<lambda>v. v\<lparr>currentTime := t\<rparr>) (video1_el s)\<rparr>"]
    by (simp add: primary_plays_def split: option.splits)
next
  case (PrimaryPaused b)
  then show ?thesis
    using reactive_block_plays [of "s\<lparr>video1_el := map_option (\<lambda>v. v\<lparr>paused := b\<rparr>) (video1_el s)\<rparr>"]
    by (simp add: primary_plays_def split: option.splits)
next
  case (SecondaryTime t)
  then show ?thesis
    using reactive_block_plays [of "s\<lparr>video2_el := map_option (\<lambda>v. v\<lparr>currentTime := t\<rparr>) (video2_el s)\<rparr>"]
    by (simp add: primary_plays_def)
next
  case (SecondaryPaused b)
  then show ?thesis
    using reactive_block_plays [of "s\<lparr>video2_el := map_option (\<lambda>v. v\<lparr>paused := b\<rparr>) (video2_el s)\<rparr>"]
    by (simp add: primary_plays_def)
qed

lemma notify_frame:
  "autoplay (notify n s) = autoplay s"
  "(video1_el (notify n s) = None) = (video1_el s = None)"
  "video_is_ready (notify n s) = (video_is_ready s \<or> n = PrimaryReady)"
  by (cases n; simp add: reactive_block_frame handle_video_ready_def)+

lemma notify_latch:
  "initial_autoplay_done (notify n s)
     = (initial_autoplay_done s
        \<or> (video1_el s \<noteq> None \<and> autoplay s \<and> (video_is_ready s \<or> n = PrimaryReady)))"
  by (cases n) (auto simp: reactive_block_frame handle_video_ready_def)

lemma run_plays:
  "primary_plays (run ns s) + (if initial_autoplay_done s then 1 else 0)
     = primary_plays s + (if initial_autoplay_done (run ns s) then 1 else 0)"
proof (induction ns arbitrary: s)
  case Nil
  then show ?case by (simp add: run_def)
next
  case (Cons n ns)
  have "run (n # ns) s = run ns (notify n s)"
    by (simp add: run_def)
  then show ?case
    using Cons.IH [of "notify n s"] notify_plays [of n s] by (simp split: if_splits)
qed

lemma run_latch:
  assumes "video1_el s \<noteq> None" and "autoplay s"
  shows "initial_autoplay_done (run ns s)
           = (initial_autoplay_done s \<or> (ns \<noteq> [] \<and> (video_is_ready s \<or> PrimaryReady \<in> set ns)))"
  using assms
proof (induction ns arbitrary: s)
  case Nil
  then show ?case by (simp add: run_def)
next
  case (Cons n ns)
  have r: "run (n # ns) s = run ns (notify n s)"
    by (simp add: run_def)
  have "video1_el (notify n s) \<noteq> None" "autoplay (notify n s)"
    using Cons.prems by (simp_all add: notify_frame)
  from Cons.IH [OF this] show ?case
    using Cons.prems unfolding r by (auto simp: notify_latch notify_frame)
qed

lemma preview_autoplay_facts:
  "autoplay preview_autoplay" "video1_el preview_autoplay = Some (video_at 0 True)"
  "\<not> initial_autoplay_done preview_autoplay" "primary_plays preview_autoplay = 0"
  by (simp_all add: preview_autoplay_def preview_of_def primary_plays_def)

text \<open>
  C6 (the autoplay latch). With autoplay configured, the primary video bound and the latch
  unset, any sequence of notifications makes the component call \<open>play()\<close> on the
  primary at most once more; it is exactly once, and the latch is set, when the sequence
  contains a ready notification, and not at all when the primary never becomes ready.
\<close>

theorem autoplay_at_most_once:
  assumes "autoplay s" and "video1_el s = Some v" and "\<not> initial_autoplay_done s"
  shows "primary_plays (run ns s) \<le> primary_plays s + 1
         \<and> (PrimaryReady \<in> set ns \<longrightarrow>
              primary_plays (run ns s) = primary_plays s + 1 \<and> initial_autoplay_done (run ns s))
         \<and> (PrimaryReady \<notin> set ns \<and> \<not> video_is_ready s \<longrightarrow>
              primary_plays (run ns s) = primary_plays s)"
proof -
  have l: "initial_autoplay_done (run ns s)
             = (ns \<noteq> [] \<and> (video_is_ready s \<or> PrimaryReady \<in> set ns))"
    using run_latch [of s ns] assms by simp
  have p: "primary_plays (run ns s)
             = primary_plays s + (if initial_autoplay_done (run ns s) then 1 else 0)"
    using run_plays [of ns s] assms(3) by simp
  show ?thesis
    unfolding p l by auto
qed

theorem autoplay_at_most_once_witness:
  "primary_plays (run [PrimaryReady, PrimaryReady] preview_autoplay) = 1
   \<and> initial_autoplay_done (run [PrimaryReady, PrimaryReady] preview_autoplay)
   \<and> primary_plays (run [PrimaryReady, PrimaryPaused True, Rerender, PrimaryReady] preview_autoplay) = 1"
  using autoplay_at_most_once [OF preview_autoplay_facts(1,2,3), of "[PrimaryReady, PrimaryReady]"]
        autoplay_at_most_once [OF preview_autoplay_facts(1,2,3),
          of "[PrimaryReady, PrimaryPaused True, Rerender, PrimaryReady]"]
  by (simp add: preview_autoplay_facts(4))

section \<open>The position handed down by the root component\<close>

lemma normalised_finite:
  "normalised_slider_position (Fin p) = Fin (max 0 (min 100 p) / 100)"
  by (auto simp: normalised_slider_position_def)

lemma normalised_infinite:
  "normalised_slider_position PInf = Fin 1" "normalised_slider_position NInf = Fin 0"
  by (simp_all add: normalised_slider_position_def)

text \<open>
  C10 (the root's normalised position). For every number that the \<open>position\<close> property
  can hold, below 0 and above 100 and the infinities included, the derived position is a
  finite number of \<open>[0, 1]\<close>, and for a finite property \<open>p\<close> it is
  \<open>max(0, min(100, p)) / 100\<close>. (NaN, which is no number, stays NaN.)
\<close>

theorem normalised_slider_position_range:
  assumes "pos \<noteq> NaN"
  shows "\<exists>r. normalised_slider_position pos = Fin r \<and> 0 \<le> r \<and> r \<le> 1
           \<and> (\<forall>p. pos = Fin p \<longrightarrow> r = max 0 (min 100 p) / 100)"
proof (cases pos)
  case (Fin p)
  have "0 \<le> max 0 (min 100 p) / 100" "max 0 (min 100 p) / 100 \<le> 1"
    by simp_all
  with Fin show ?thesis
    by (simp only: normalised_finite number.inject) blast
next
  case PInf
  then show ?thesis by (simp add: normalised_infinite)
next
  case NInf
  then show ?thesis by (simp add: normalised_infinite)
next
  case NaN
  with assms show ?thesis by simp
qed

theorem normalised_slider_position_range_witness:
  "(\<exists>r. normalised_slider_position (Fin 150) = Fin r \<and> 0 \<le> r \<and> r \<le> 1 \<and> r = 1)
   \<and> (\<exists>r. normalised_slider_position (Fin (- 20)) = Fin r \<and> 0 \<le> r \<and> r \<le> 1 \<and> r = 0)
   \<and> (\<exists>r. normalised_slider_position (Fin 50) = Fin r \<and> 0 \<le> r \<and> r \<le> 1 \<and> r = 1 / 2)"
  using normalised_slider_position_range [of "Fin 150"]
        normalised_slider_position_range [of "Fin (- 20)"]
        normalised_slider_position_range [of "Fin 50"]
  by simp

end
